theory Spec2Isabelle
  imports Main "HOL-Library.Word"
begin

section \<open>The ZooKeeper consumer module of Burrow (package consumer, KafkaZkClient)\<close>

text \<open>
  The module mirrors the consumer tree of a ZooKeeper ensemble with one-shot watches on
  four levels (group list, topic list of a group, partition list of a topic, offset of a
  partition) and forwards every offset it reads to the storage subsystem.  The embedding
  below follows the Go source function by function.  Go's integers are words of their
  width (\<open>int32\<close>, \<open>int64\<close>), a nil map entry is \<open>None\<close>, a run-time panic is the
  \<open>Inl\<close> branch of the result, and every \<open>go f(...)\<close> statement appends the started
  goroutine to a list kept in the module state.
\<close>

subsection \<open>External collaborators: the zk package, encoding/json, strconv, protocol\<close>

text \<open>The event types and session states of the go-zookeeper package \<open>zk\<close>.\<close>

datatype EventType =
    EventNodeCreated
  | EventNodeDeleted
  | EventNodeDataChanged
  | EventNodeChildrenChanged
  | EventSession
  | EventNotWatching

datatype State =
    StateUnknown
  | StateDisconnected
  | StateConnecting
  | StateAuthFailed
  | StateConnectedReadOnly
  | StateSaslAuthenticated
  | StateExpired
  | StateConnected
  | StateHasSession

text \<open>\<open>zk.Event\<close>: of its fields the module reads \<open>Type\<close> and \<open>State\<close> only.\<close>

record Event =
  Type :: EventType
  State :: State

text \<open>\<open>zk.Stat\<close>: of the node metadata the module reads the modification time only.\<close>

record Stat =
  Mtime :: "64 word"

text \<open>
  \<open>protocol.ZookeeperClient\<close> is an interface; the module calls \<open>ChildrenW\<close> and
  \<open>GetW\<close> (and \<open>Close\<close>).  A client is the pair of its answers: an error (its message),
  or the children names, respectively the payload and the node metadata.  The event
  channel that a successful call returns is named by the call, see \<open>watch\<close> below.
\<close>

record ZookeeperClient =
  ChildrenW :: "string \<Rightarrow> string + string list"
  GetW :: "string \<Rightarrow> string + (string \<times> Stat)"

text \<open>A watch (and the event channel that delivers it): the kind of read and the path.\<close>

datatype watch = ChildrenWatch string | DataWatch string

text \<open>The record that both the topic node and the offset nodes hold, with its JSON keys.\<close>

record Transform =
  topic :: string
  partitionId :: "32 word"
  offset :: "64 word"

text \<open>
  \<open>json.Unmarshal(data, &transform)\<close> of the Go standard library is a parameter of the
  model: a function from the payload to an error (its message) or the decoded record.
\<close>

type_synonym Unmarshal = "string \<Rightarrow> string + Transform"

text \<open>
  A compiled \<open>*regexp.Regexp\<close> is used through \<open>MatchString\<close> only and is modelled by
  that predicate; the nil pointer is \<open>None\<close>.
\<close>

type_synonym Regexp = "string \<Rightarrow> bool"

definition MatchString :: "Regexp \<Rightarrow> string \<Rightarrow> bool" where
  "MatchString re s = re s"

text \<open>\<open>strconv.FormatInt(i, 10)\<close>: the decimal digits, after a minus sign below zero.\<close>

definition digit :: "nat \<Rightarrow> char" where
  "digit d = ''0123456789'' ! d"

fun formatNat :: "nat \<Rightarrow> string" where
  "formatNat n = (if n < 10 then [digit n] else formatNat (n div 10) @ [digit (n mod 10)])"

declare formatNat.simps [simp del]

definition FormatInt :: "int \<Rightarrow> string" where
  "FormatInt i = (if i < 0 then CHR ''-'' # formatNat (nat (- i)) else formatNat (nat i))"

text \<open>
  \<open>protocol.StorageRequest\<close> with the fields this module sets (the others keep their zero
  values), and the request types of \<open>protocol.StorageRequestConstant\<close>.
\<close>

datatype StorageRequestConstant =
    StorageSetBrokerOffset
  | StorageSetConsumerOffset
  | StorageSetConsumerOwner
  | StorageSetDeleteTopic
  | StorageSetDeleteGroup

record StorageRequest =
  RequestType :: StorageRequestConstant
  Cluster :: string
  Topic :: string
  Partition :: "32 word"
  Group :: string
  Timestamp :: "64 word"
  Offset :: "64 word"

subsection \<open>The module state\<close>

record partitionCount =
  count :: "32 word"

record topicList =
  topics :: "string \<rightharpoonup> partitionCount"

text \<open>The goroutines the module starts: the function and its arguments.\<close>

datatype goroutine =
    GoConnectionStateWatcher
  | GoWatchGroupList watch
  | GoResetGroupListWatchAndAdd bool
  | GoWatchTopicList string watch
  | GoResetTopicListWatchAndAdd string bool
  | GoWatchPartitionList string string watch
  | GoResetPartitionListWatchAndAdd string string bool
  | GoWatchOffset string string "32 word" watch
  | GoResetOffsetWatchAndSend string string "32 word" bool

text \<open>
  The fields of \<open>KafkaZkClient\<close> that the functions below read or write.  Three more
  fields record what the module did to the world: \<open>goroutines\<close> (every \<open>go\<close> statement
  executed, in order), \<open>zkReads\<close> (every \<open>ChildrenW\<close> and \<open>GetW\<close> call made, in order)
  and \<open>StorageChannel\<close> (every request handed to \<open>helpers.TimeoutSendStorageRequest\<close>
  for \<open>module.App.StorageChannel\<close>, in order).  \<open>running\<close> is the counter of the
  \<open>sync.WaitGroup\<close>.  The mutexes are left out: each function below runs as one step.
\<close>

record KafkaZkClient =
  cluster :: string
  zookeeperPath :: string
  areWatchesSet :: bool
  running :: int
  groupList :: "string \<rightharpoonup> topicList"
  groupWhitelist :: "Regexp option"
  groupBlacklist :: "Regexp option"
  goroutines :: "goroutine list"
  zkReads :: "watch list"
  StorageChannel :: "StorageRequest list"

text \<open>A run-time panic of the Go program (no function of the module recovers one).\<close>

datatype panic = NilPointerDereference

definition running_Add :: "int \<Rightarrow> KafkaZkClient \<Rightarrow> KafkaZkClient" where
  "running_Add n m = m\<lparr>running := running m + n\<rparr>"

definition running_Done :: "KafkaZkClient \<Rightarrow> KafkaZkClient" where
  "running_Done m = m\<lparr>running := running m - 1\<rparr>"

definition go :: "goroutine \<Rightarrow> KafkaZkClient \<Rightarrow> KafkaZkClient" where
  "go g m = m\<lparr>goroutines := goroutines m @ [g]\<rparr>"

definition zkRead :: "watch \<Rightarrow> KafkaZkClient \<Rightarrow> KafkaZkClient" where
  "zkRead w m = m\<lparr>zkReads := zkReads m @ [w]\<rparr>"

text \<open>
  Modelled from the spec: \<open>helpers.TimeoutSendStorageRequest\<close> is not among the sources.
  It offers the request to the storage channel and gives up after the timeout; the model
  records the request that was handed over.
\<close>

definition TimeoutSendStorageRequest :: "StorageRequest \<Rightarrow> KafkaZkClient \<Rightarrow> KafkaZkClient" where
  "TimeoutSendStorageRequest r m = m\<lparr>StorageChannel := StorageChannel m @ [r]\<rparr>"

subsection \<open>The group filter\<close>

definition acceptConsumerGroup :: "KafkaZkClient \<Rightarrow> string \<Rightarrow> bool" where
  "acceptConsumerGroup m grp =
     (if (case groupWhitelist m of None \<Rightarrow> False | Some re \<Rightarrow> \<not> MatchString re grp)
      then False
      else if (case groupBlacklist m of None \<Rightarrow> False | Some re \<Rightarrow> MatchString re grp)
      then False
      else True)"

subsection \<open>The offset level\<close>

definition offsetPath :: "KafkaZkClient \<Rightarrow> string \<Rightarrow> 32 word \<Rightarrow> string" where
  "offsetPath m grp part =
     zookeeperPath m @ ''/'' @ grp @ ''/'' @ FormatInt (sint part)"


text \<open>
  In the branch of a payload that does not decode, the source logs \<open>err.Error()\<close> where
  \<open>err\<close> is the error of \<open>GetW\<close>, which is nil there: the call panics.
\<close>

definition resetOffsetWatchAndSend ::
  "Unmarshal \<Rightarrow> ZookeeperClient \<Rightarrow> string \<Rightarrow> string \<Rightarrow> 32 word \<Rightarrow> bool
     \<Rightarrow> KafkaZkClient \<Rightarrow> panic + KafkaZkClient" where
  "resetOffsetWatchAndSend json zk grp tpc part resetOnly m =
     (let path = offsetPath m grp part;
          m1 = zkRead (DataWatch path) m
      in case GetW zk path of
           Inl err \<Rightarrow> Inr (running_Done m1)
         | Inr (offsetString, offsetStat) \<Rightarrow>
             (case json offsetString of
                Inl formatErr \<Rightarrow> Inl NilPointerDereference
              | Inr transformConsumer \<Rightarrow>
                  let m2 = go (GoWatchOffset grp tpc part (DataWatch path))
                             (running_Add 1 m1)
                  in if \<not> resetOnly
                     then Inr (running_Done
                            (TimeoutSendStorageRequest
                               \<lparr>RequestType = StorageSetConsumerOffset,
                                Cluster = cluster m2,
                                Topic = tpc,
                                Partition = part,
                                Group = grp,
                                Timestamp = Mtime offsetStat,
                                Offset = offset transformConsumer\<rparr> m2))
                     else Inr (running_Done m2)))"

subsection \<open>The partition-list level\<close>

definition partitionListPath :: "KafkaZkClient \<Rightarrow> string \<Rightarrow> string" where
  "partitionListPath m grp = zookeeperPath m @ ''/'' @ grp"


text \<open>
  The loop \<open>for i := count; i < int32(len(topicPartitions)); i++\<close> with its body, the
  direct call of \<open>resetOffsetWatchAndSend\<close>.
\<close>

function addPartitions ::
  "Unmarshal \<Rightarrow> ZookeeperClient \<Rightarrow> string \<Rightarrow> string \<Rightarrow> 32 word \<Rightarrow> 32 word
     \<Rightarrow> KafkaZkClient \<Rightarrow> panic + KafkaZkClient" where
  "addPartitions json zk grp tpc i n m =
     (if i <s n
      then (case resetOffsetWatchAndSend json zk grp tpc i False (running_Add 1 m) of
              Inl p \<Rightarrow> Inl p
            | Inr m' \<Rightarrow> addPartitions json zk grp tpc (i + 1) n m')
      else Inr m)"
  by pat_completeness auto

lemma sint_succ_sless: "i <s (n :: 32 word) \<Longrightarrow> sint (i + 1) = sint i + 1"
proof -
  assume less: "i <s n"
  have "sint n < 2 ^ 31"
    using sint_lt [of n] by simp
  moreover have "- (2 ^ 31) \<le> sint i"
    using sint_ge [of i] by simp
  moreover have "sint i < sint n"
    using less by (simp add: word_sless_alt)
  ultimately have "- (2 ^ 31) \<le> sint i + 1" and "sint i + 1 < 2 ^ 31"
    by linarith+
  then have "signed_take_bit 31 (sint i + 1) = sint i + 1"
    by (simp add: signed_take_bit_int_eq_self)
  then show ?thesis
    by (simp add: sint_word_add)
qed

termination addPartitions
  apply (relation "measure (\<lambda>(json, zk, grp, tpc, i, n, m). nat (sint n - sint i))")
   apply simp
  apply (simp add: sint_succ_sless word_sless_alt)
  done

declare addPartitions.simps [simp del]

text \<open>
  The assignment \<open>module.groupList[group].topics[topic].count = n\<close>: both map lookups
  yield pointers, and a nil pointer panics.
\<close>

definition setCount ::
  "string \<Rightarrow> string \<Rightarrow> 32 word \<Rightarrow> KafkaZkClient \<Rightarrow> panic + KafkaZkClient" where
  "setCount grp tpc n m =
     (case groupList m grp of
        None \<Rightarrow> Inl NilPointerDereference
      | Some tlist \<Rightarrow>
          (case topics tlist tpc of
             None \<Rightarrow> Inl NilPointerDereference
           | Some pc \<Rightarrow>
               Inr (m\<lparr>groupList := (groupList m)
                      (grp \<mapsto> tlist\<lparr>topics := (topics tlist)(tpc \<mapsto> pc\<lparr>count := n\<rparr>)\<rparr>)\<rparr>)))"

definition resetPartitionListWatchAndAdd ::
  "Unmarshal \<Rightarrow> ZookeeperClient \<Rightarrow> string \<Rightarrow> string \<Rightarrow> bool
     \<Rightarrow> KafkaZkClient \<Rightarrow> panic + KafkaZkClient" where
  "resetPartitionListWatchAndAdd json zk grp tpc resetOnly m =
     (let path = partitionListPath m grp;
          m1 = zkRead (ChildrenWatch path) m
      in case ChildrenW zk path of
           Inl err \<Rightarrow> Inr (running_Done m1)
         | Inr topicPartitions \<Rightarrow>
             let m2 = go (GoWatchPartitionList grp tpc (ChildrenWatch path)) (running_Add 1 m1)
             in if \<not> resetOnly
                then (case groupList m2 grp of
                        None \<Rightarrow> Inl NilPointerDereference
                      | Some tlist \<Rightarrow>
                          (case topics tlist tpc of
                             None \<Rightarrow> Inl NilPointerDereference
                           | Some pc \<Rightarrow>
                               let n = (word_of_nat (length topicPartitions) :: 32 word)
                               in if count pc \<le>s n
                                  then (case addPartitions json zk grp tpc (count pc) n m2 of
                                          Inl p \<Rightarrow> Inl p
                                        | Inr m3 \<Rightarrow>
                                            (case setCount grp tpc n m3 of
                                               Inl p \<Rightarrow> Inl p
                                             | Inr m4 \<Rightarrow> Inr (running_Done m4)))
                                  else Inr (running_Done m2)))
                else Inr (running_Done m2))"

subsection \<open>The topic-list level\<close>

definition topicListPath :: "KafkaZkClient \<Rightarrow> string \<Rightarrow> string" where
  "topicListPath m grp = zookeeperPath m @ ''/'' @ grp @ ''/'' @ ''0''"


text \<open>
  The loop over \<open>groupTopics\<close>: a topic that the group does not have yet gets a count of
  0 and its partition list is read by a direct call.
\<close>

fun addTopics ::
  "Unmarshal \<Rightarrow> ZookeeperClient \<Rightarrow> string \<Rightarrow> string list
     \<Rightarrow> KafkaZkClient \<Rightarrow> panic + KafkaZkClient" where
  "addTopics json zk grp [] m = Inr m"
| "addTopics json zk grp (tpc # rest) m =
     (case groupList m grp of
        None \<Rightarrow> Inl NilPointerDereference
      | Some tlist \<Rightarrow>
          if topics tlist tpc = None
          then (case resetPartitionListWatchAndAdd json zk grp tpc False
                       (running_Add 1
                          (m\<lparr>groupList := (groupList m)
                               (grp \<mapsto> tlist\<lparr>topics := (topics tlist)(tpc \<mapsto> \<lparr>count = 0\<rparr>)\<rparr>)\<rparr>)) of
                  Inl p \<Rightarrow> Inl p
                | Inr m' \<Rightarrow> addTopics json zk grp rest m')
          else addTopics json zk grp rest m)"

text \<open>
  The payload is decoded before the goroutine that waits for the next event is started,
  and a payload that does not decode returns before it.  With \<open>resetOnly\<close> false the
  source locks \<open>module.groupList[group].lock\<close>, which panics for a group that is not in
  the map.
\<close>

definition resetTopicListWatchAndAdd ::
  "Unmarshal \<Rightarrow> ZookeeperClient \<Rightarrow> string \<Rightarrow> bool
     \<Rightarrow> KafkaZkClient \<Rightarrow> panic + KafkaZkClient" where
  "resetTopicListWatchAndAdd json zk grp resetOnly m =
     (let path = topicListPath m grp;
          m1 = zkRead (DataWatch path) m
      in case GetW zk path of
           Inl dataErr \<Rightarrow> Inr (running_Done m1)
         | Inr (groupData, groupStat) \<Rightarrow>
             (case json groupData of
                Inl mErr \<Rightarrow> Inr (running_Done m1)
              | Inr transformConsumer \<Rightarrow>
                  let groupTopics = [topic transformConsumer];
                      m2 = go (GoWatchTopicList grp (DataWatch path)) (running_Add 1 m1)
                  in if \<not> resetOnly
                     then (case groupList m2 grp of
                             None \<Rightarrow> Inl NilPointerDereference
                           | Some tlist \<Rightarrow>
                               (case addTopics json zk grp groupTopics m2 of
                                  Inl p \<Rightarrow> Inl p
                                | Inr m3 \<Rightarrow> Inr (running_Done m3)))
                     else Inr (running_Done m2)))"

subsection \<open>The group-list level\<close>


text \<open>
  The loop over \<open>consumerGroups\<close>: a group that the filter rejects is skipped, a group
  that is not in the map yet gets an empty topic map and its topic node is read by a
  direct call.
\<close>

fun addGroups ::
  "Unmarshal \<Rightarrow> ZookeeperClient \<Rightarrow> string list \<Rightarrow> KafkaZkClient \<Rightarrow> panic + KafkaZkClient" where
  "addGroups json zk [] m = Inr m"
| "addGroups json zk (grp # rest) m =
     (if \<not> acceptConsumerGroup m grp then addGroups json zk rest m
      else if groupList m grp = None
      then (case resetTopicListWatchAndAdd json zk grp False
                   (running_Add 1
                      (m\<lparr>groupList := (groupList m)(grp \<mapsto> \<lparr>topics = Map.empty\<rparr>)\<rparr>)) of
              Inl p \<Rightarrow> Inl p
            | Inr m' \<Rightarrow> addGroups json zk rest m')
      else addGroups json zk rest m)"

definition resetGroupListWatchAndAdd ::
  "Unmarshal \<Rightarrow> ZookeeperClient \<Rightarrow> bool \<Rightarrow> KafkaZkClient \<Rightarrow> panic + KafkaZkClient" where
  "resetGroupListWatchAndAdd json zk resetOnly m =
     (let path = zookeeperPath m;
          m1 = zkRead (ChildrenWatch path) m
      in case ChildrenW zk path of
           Inl err \<Rightarrow> Inr (running_Done m1)
         | Inr consumerGroups \<Rightarrow>
             let m2 = go (GoWatchGroupList (ChildrenWatch path)) (running_Add 1 m1)
             in if \<not> resetOnly
                then (case addGroups json zk consumerGroups m2 of
                        Inl p \<Rightarrow> Inl p
                      | Inr m3 \<Rightarrow> Inr (running_Done m3))
                else Inr (running_Done m2))"

subsection \<open>Start and the session monitor\<close>

text \<open>
  \<open>Start\<close>: \<open>connect\<close> is the result of \<open>module.connectFunc\<close>, an error or the
  client.  The result is the panic, or the new state with the error that \<open>Start\<close>
  returns (\<open>None\<close> is nil).
\<close>

definition Start ::
  "Unmarshal \<Rightarrow> string + ZookeeperClient \<Rightarrow> KafkaZkClient
     \<Rightarrow> panic + (KafkaZkClient \<times> string option)" where
  "Start json connect m =
     (case connect of
        Inl err \<Rightarrow> Inr (m, Some err)
      | Inr zkconn \<Rightarrow>
          (case resetGroupListWatchAndAdd json zkconn False (running_Add 1 m) of
             Inl p \<Rightarrow> Inl p
           | Inr m1 \<Rightarrow>
               Inr (go GoConnectionStateWatcher (running_Add 1 (m1\<lparr>areWatchesSet := True\<rparr>)),
                    None)))"

text \<open>The body of the loop of \<open>connectionStateWatcher\<close>, for one event.\<close>

definition connectionStateEvent :: "Event \<Rightarrow> KafkaZkClient \<Rightarrow> KafkaZkClient" where
  "connectionStateEvent event m =
     (if Type event = EventSession
      then (case State event of
              StateExpired \<Rightarrow> m\<lparr>areWatchesSet := False\<rparr>
            | StateConnected \<Rightarrow>
                if \<not> areWatchesSet m
                then go (GoResetGroupListWatchAndAdd False)
                       (running_Add 1 (m\<lparr>groupList := Map.empty\<rparr>))
                else m
            | _ \<Rightarrow> m)
      else m)"

text \<open>
  \<open>connectionStateWatcher\<close> ranges over the event channel until it is closed: the list
  is what the channel delivers before that.
\<close>

fun connectionStateLoop :: "Event list \<Rightarrow> KafkaZkClient \<Rightarrow> KafkaZkClient" where
  "connectionStateLoop [] m = m"
| "connectionStateLoop (event # events) m = connectionStateLoop events (connectionStateEvent event m)"

definition connectionStateWatcher :: "Event list \<Rightarrow> KafkaZkClient \<Rightarrow> KafkaZkClient" where
  "connectionStateWatcher eventChan m = running_Done (connectionStateLoop eventChan m)"

subsection \<open>Observations used in the statements\<close>

text \<open>
  What stays fixed while the module runs (the configuration and the flag that only the
  session monitor writes), the group a goroutine works for, and the relations between the
  state before and after a call that the lemmas below establish.
\<close>

definition sameConfig :: "KafkaZkClient \<Rightarrow> KafkaZkClient \<Rightarrow> bool" where
  "sameConfig m m' =
     (cluster m' = cluster m \<and> zookeeperPath m' = zookeeperPath m \<and>
      areWatchesSet m' = areWatchesSet m \<and>
      groupWhitelist m' = groupWhitelist m \<and> groupBlacklist m' = groupBlacklist m)"

fun goroutineGroup :: "goroutine \<Rightarrow> string option" where
  "goroutineGroup GoConnectionStateWatcher = None"
| "goroutineGroup (GoWatchGroupList w) = None"
| "goroutineGroup (GoResetGroupListWatchAndAdd resetOnly) = None"
| "goroutineGroup (GoWatchTopicList grp w) = Some grp"
| "goroutineGroup (GoResetTopicListWatchAndAdd grp resetOnly) = Some grp"
| "goroutineGroup (GoWatchPartitionList grp tpc w) = Some grp"
| "goroutineGroup (GoResetPartitionListWatchAndAdd grp tpc resetOnly) = Some grp"
| "goroutineGroup (GoWatchOffset grp tpc part w) = Some grp"
| "goroutineGroup (GoResetOffsetWatchAndSend grp tpc part resetOnly) = Some grp"

definition spawns :: "(goroutine \<Rightarrow> bool) \<Rightarrow> KafkaZkClient \<Rightarrow> KafkaZkClient \<Rightarrow> bool" where
  "spawns P m m' = (\<exists>new. goroutines m' = goroutines m @ new \<and> list_all P new)"

definition decodable :: "Unmarshal \<Rightarrow> ZookeeperClient \<Rightarrow> bool" where
  "decodable json zk = (\<forall>path d st. GetW zk path = Inr (d, st) \<longrightarrow> (\<exists>tr. json d = Inr tr))"


definition withCount ::
  "string \<Rightarrow> string \<Rightarrow> 32 word \<Rightarrow> (string \<rightharpoonup> topicList) \<Rightarrow> (string \<rightharpoonup> topicList)" where
  "withCount g t n gl =
     (case gl g of
        None \<Rightarrow> gl
      | Some tlist \<Rightarrow>
          (case topics tlist t of
             None \<Rightarrow> gl
           | Some pc \<Rightarrow> gl(g \<mapsto> tlist\<lparr>topics := (topics tlist)(t \<mapsto> pc\<lparr>count := n\<rparr>)\<rparr>)))"


definition groupStep :: "string \<Rightarrow> KafkaZkClient \<Rightarrow> KafkaZkClient \<Rightarrow> bool" where
  "groupStep g m m' =
     (sameConfig m m' \<and> spawns (\<lambda>x. goroutineGroup x = Some g) m m' \<and>
      (\<forall>g'. g' \<noteq> g \<longrightarrow> groupList m' g' = groupList m g') \<and>
      (groupList m' g = None) = (groupList m g = None))"

definition topicStep :: "string \<Rightarrow> string \<Rightarrow> KafkaZkClient \<Rightarrow> KafkaZkClient \<Rightarrow> bool" where
  "topicStep g t m m' =
     (\<forall>tlist. groupList m g = Some tlist \<longrightarrow>
        (\<exists>tlist'. groupList m' g = Some tlist' \<and>
           (\<forall>t'. t' \<noteq> t \<longrightarrow> topics tlist' t' = topics tlist t') \<and>
           (topics tlist' t = None) = (topics tlist t = None)))"

definition topicsKept :: "string \<Rightarrow> KafkaZkClient \<Rightarrow> KafkaZkClient \<Rightarrow> bool" where
  "topicsKept g m m' =
     (\<forall>tlist. groupList m g = Some tlist \<longrightarrow>
        (\<exists>tlist'. groupList m' g = Some tlist' \<and>
           (\<forall>t pc. topics tlist t = Some pc \<longrightarrow> topics tlist' t = Some pc)))"


subsection \<open>Example inputs\<close>

text \<open>
  The payload \<open>{"topic":"t1","partitionId":0,"offset":42}\<close>, and what
  \<open>json.Unmarshal\<close> returns on the payloads of the examples.
\<close>

definition payloadT1 :: string where
  "payloadT1 =
     ''{'' @ [CHR 0x22] @ ''topic'' @ [CHR 0x22] @ '':'' @ [CHR 0x22] @ ''t1'' @ [CHR 0x22] @
     '','' @ [CHR 0x22] @ ''partitionId'' @ [CHR 0x22] @ '':0,'' @
     [CHR 0x22] @ ''offset'' @ [CHR 0x22] @ '':42}''"

definition jsonFixture :: Unmarshal where
  "jsonFixture data =
     (if data = payloadT1 then Inr \<lparr>topic = ''t1'', partitionId = 0, offset = 42\<rparr>
      else if data = ''{}'' then Inr \<lparr>topic = [], partitionId = 0, offset = 0\<rparr>
      else Inl ''invalid character'')"

text \<open>
  A tree with the groups \<open>g1\<close> and \<open>g2-internal\<close>; \<open>g1\<close> has the one child \<open>0\<close>,
  which holds the payload above.
\<close>

definition zkFixture :: ZookeeperClient where
  "zkFixture =
     \<lparr>ChildrenW = (\<lambda>path.
         if path = ''/consumers'' then Inr [''g1'', ''g2-internal'']
         else if path = ''/consumers/g1'' then Inr [''0'']
         else Inl ''zk: node does not exist''),
      GetW = (\<lambda>path.
         if path = ''/consumers/g1/0'' then Inr (payloadT1, \<lparr>Mtime = 1500000000000\<rparr>)
         else Inl ''zk: node does not exist'')\<rparr>"

text \<open>A configured module with the blacklist \<open>.*-internal$\<close>, before \<open>Start\<close>.\<close>

definition moduleFixture :: KafkaZkClient where
  "moduleFixture =
     \<lparr>cluster = ''local'', zookeeperPath = ''/consumers'', areWatchesSet = False, running = 0,
      groupList = Map.empty, groupWhitelist = None,
      groupBlacklist = Some (\<lambda>s. drop (length s - 9) s = ''-internal''),
      goroutines = [], zkReads = [], StorageChannel = []\<rparr>"

text \<open>
  The same tree for one group, whose node \<open>0\<close> holds a payload that is not JSON.
\<close>

definition zkUndecodable :: ZookeeperClient where
  "zkUndecodable =
     \<lparr>ChildrenW = (\<lambda>path.
         if path = ''/consumers'' then Inr [''g1'']
         else if path = ''/consumers/g1'' then Inr [''0'']
         else Inl ''zk: node does not exist''),
      GetW = (\<lambda>path.
         if path = ''/consumers/g1/0'' then Inr (''not json'', \<lparr>Mtime = 1500000000000\<rparr>)
         else Inl ''zk: node does not exist'')\<rparr>"

text \<open>A session event of the connection, as the client's event channel delivers it.\<close>

definition sessionEvent :: "State \<Rightarrow> Event" where
  "sessionEvent s = \<lparr>Type = EventSession, State = s\<rparr>"






text \<open>The largest of a stored count and the child counts observed after it.\<close>

definition highestSoFar :: "int \<Rightarrow> int list \<Rightarrow> int" where
  "highestSoFar c ns = fold max ns c"



section \<open>Properties\<close>

subsection \<open>Auxiliary lemmas\<close>

lemmas effect_defs =
  running_Add_def running_Done_def go_def zkRead_def TimeoutSendStorageRequest_def

lemma decodableD: "decodable json zk \<Longrightarrow> GetW zk path = Inr (d, st) \<Longrightarrow> \<exists>tr. json d = Inr tr"
  unfolding decodable_def by blast

lemma sameConfig_refl [simp]: "sameConfig m m"
  by (simp add: sameConfig_def)

lemma sameConfig_trans: "sameConfig m m' \<Longrightarrow> sameConfig m' m'' \<Longrightarrow> sameConfig m m''"
  by (simp add: sameConfig_def)

lemma sameConfig_effects [simp]:
  "sameConfig m (running_Add k m') = sameConfig m m'"
  "sameConfig m (running_Done m') = sameConfig m m'"
  "sameConfig m (zkRead w m') = sameConfig m m'"
  "sameConfig m (go g m') = sameConfig m m'"
  "sameConfig m (TimeoutSendStorageRequest r m') = sameConfig m m'"
  "sameConfig m (m'\<lparr>groupList := gl\<rparr>) = sameConfig m m'"
  "sameConfig (running_Add k m) m' = sameConfig m m'"
  "sameConfig (m\<lparr>groupList := gl\<rparr>) m' = sameConfig m m'"
  by (simp_all add: sameConfig_def effect_defs)

lemma spawns_refl [simp]: "spawns P m m"
  by (simp add: spawns_def)

lemma spawns_trans: "spawns P m m' \<Longrightarrow> spawns P m' m'' \<Longrightarrow> spawns P m m''"
  by (auto simp: spawns_def)

lemma spawns_mono: "spawns P m m' \<Longrightarrow> (\<And>x. P x \<Longrightarrow> Q x) \<Longrightarrow> spawns Q m m'"
  by (auto simp: spawns_def list_all_iff)

lemma spawns_effects [simp]:
  "spawns P m (running_Add k m') = spawns P m m'"
  "spawns P m (running_Done m') = spawns P m m'"
  "spawns P m (zkRead w m') = spawns P m m'"
  "spawns P m (TimeoutSendStorageRequest r m') = spawns P m m'"
  "spawns P m (m'\<lparr>groupList := gl\<rparr>) = spawns P m m'"
  "spawns P (running_Add k m) m' = spawns P m m'"
  "spawns P (m\<lparr>groupList := gl\<rparr>) m' = spawns P m m'"
  by (simp_all add: spawns_def effect_defs)

lemma spawns_go: "P g \<Longrightarrow> spawns P m m' \<Longrightarrow> spawns P m (go g m')"
  by (auto simp: spawns_def go_def)

lemma groupList_effects [simp]:
  "groupList (running_Add k m) = groupList m"
  "groupList (running_Done m) = groupList m"
  "groupList (zkRead w m) = groupList m"
  "groupList (go g m) = groupList m"
  "groupList (TimeoutSendStorageRequest r m) = groupList m"
  by (simp_all add: effect_defs)

lemma zkReads_effects [simp]:
  "zkReads (running_Add k m) = zkReads m"
  "zkReads (running_Done m) = zkReads m"
  "zkReads (zkRead w m) = zkReads m @ [w]"
  "zkReads (go g m) = zkReads m"
  "zkReads (TimeoutSendStorageRequest r m) = zkReads m"
  by (simp_all add: effect_defs)

lemma zookeeperPath_effects [simp]:
  "zookeeperPath (running_Add k m) = zookeeperPath m"
  "zookeeperPath (running_Done m) = zookeeperPath m"
  "zookeeperPath (zkRead w m) = zookeeperPath m"
  "zookeeperPath (go g m) = zookeeperPath m"
  "zookeeperPath (TimeoutSendStorageRequest r m) = zookeeperPath m"
  by (simp_all add: effect_defs)

text \<open>The offset level\<close>

lemma resetOffsetWatchAndSend_frame:
  assumes "resetOffsetWatchAndSend json zk g t p r m = Inr m'"
  shows "sameConfig m m' \<and> groupList m' = groupList m \<and>
         spawns (\<lambda>x. goroutineGroup x = Some g) m m' \<and>
         zkReads m' = zkReads m @ [DataWatch (offsetPath m g p)]"
  using assms
  by (auto simp: resetOffsetWatchAndSend_def Let_def spawns_go
      split: sum.splits prod.splits if_splits)

lemma resetOffsetWatchAndSend_returns:
  assumes "decodable json zk"
  shows "\<exists>m'. resetOffsetWatchAndSend json zk g t p r m = Inr m'"
proof (cases "GetW zk (offsetPath m g p)")
  case (Inl err)
  then show ?thesis
    by (simp add: resetOffsetWatchAndSend_def Let_def)
next
  case (Inr got)
  obtain d st where got: "got = (d, st)"
    by (cases got)
  with Inr assms obtain tr where "json d = Inr tr"
    using decodableD by blast
  with Inr got show ?thesis
    by (simp add: resetOffsetWatchAndSend_def Let_def)
qed

lemma sameConfig_offsetPath: "sameConfig m m' \<Longrightarrow> offsetPath m' g p = offsetPath m g p"
  by (simp add: sameConfig_def offsetPath_def)

lemma sameConfig_running_Add_left: "sameConfig (running_Add k m) m' \<Longrightarrow> sameConfig m m'"
  by simp

lemma addPartitions_frame:
  "addPartitions json zk g t i n m = Inr m' \<Longrightarrow>
     sameConfig m m' \<and> groupList m' = groupList m \<and>
     spawns (\<lambda>x. goroutineGroup x = Some g) m m' \<and>
     zkReads m' =
       zkReads m @ map (\<lambda>k. DataWatch (offsetPath m g (word_of_int k))) [sint i .. sint n - 1]"
proof (induction json zk g t i n m rule: addPartitions.induct)
  case (1 json zk g t i n m)
  show ?case
  proof (cases "i <s n")
    case False
    with "1.prems" have "m' = m"
      by (simp add: addPartitions.simps [of json zk g t i n m])
    moreover from False have "[sint i .. sint n - 1] = []"
      by (simp add: word_sless_alt)
    ultimately show ?thesis
      by simp
  next
    case True
    with "1.prems" obtain m1 where
      step: "resetOffsetWatchAndSend json zk g t i False (running_Add 1 m) = Inr m1" and
      rest: "addPartitions json zk g t (i + 1) n m1 = Inr m'"
      by (auto simp: addPartitions.simps [of json zk g t i n m] split: sum.splits)
    from resetOffsetWatchAndSend_frame [OF step] have
      f1: "sameConfig m m1" "groupList m1 = groupList m"
          "spawns (\<lambda>x. goroutineGroup x = Some g) m m1"
          "zkReads m1 = zkReads m @ [DataWatch (offsetPath m g i)]"
      by (simp_all add: offsetPath_def)
    from "1.IH" [OF True step rest] have
      f2: "sameConfig m1 m'" "groupList m' = groupList m1"
          "spawns (\<lambda>x. goroutineGroup x = Some g) m1 m'"
          "zkReads m' = zkReads m1 @
             map (\<lambda>k. DataWatch (offsetPath m1 g (word_of_int k))) [sint (i + 1) .. sint n - 1]"
      by simp_all
    from True have up: "[sint i .. sint n - 1] = sint i # [sint (i + 1) .. sint n - 1]"
      by (simp add: sint_succ_sless [OF True] word_sless_alt upto_rec1)
    from f1 f2 up show ?thesis
      by (auto intro: sameConfig_trans spawns_trans simp: sameConfig_offsetPath)
  qed
qed

lemma addPartitions_returns:
  "decodable json zk \<Longrightarrow> \<exists>m'. addPartitions json zk g t i n m = Inr m'"
proof (induction json zk g t i n m rule: addPartitions.induct)
  case (1 json zk g t i n m)
  show ?case
  proof (cases "i <s n")
    case False
    then show ?thesis
      by (simp add: addPartitions.simps [of json zk g t i n m])
  next
    case True
    from resetOffsetWatchAndSend_returns [OF "1.prems"] obtain m1 where
      step: "resetOffsetWatchAndSend json zk g t i False (running_Add 1 m) = Inr m1"
      by blast
    from "1.IH" [OF True step "1.prems"] obtain m' where
      "addPartitions json zk g t (i + 1) n m1 = Inr m'"
      by blast
    with True step show ?thesis
      by (simp add: addPartitions.simps [of json zk g t i n m])
  qed
qed

lemma setCount_eq:
  "setCount g t n m = Inr m' \<Longrightarrow> m' = m\<lparr>groupList := withCount g t n (groupList m)\<rparr>"
  by (auto simp: setCount_def withCount_def split: option.splits)

lemma setCount_returns:
  "groupList m g = Some tlist \<Longrightarrow> topics tlist t = Some pc \<Longrightarrow>
     setCount g t n m =
       Inr (m\<lparr>groupList := (groupList m)
              (g \<mapsto> tlist\<lparr>topics := (topics tlist)(t \<mapsto> pc\<lparr>count := n\<rparr>)\<rparr>)\<rparr>)"
  by (simp add: setCount_def)

lemma resetPartitionListWatchAndAdd_frame:
  assumes "resetPartitionListWatchAndAdd json zk g t r m = Inr m'"
  shows "sameConfig m m' \<and> spawns (\<lambda>x. goroutineGroup x = Some g) m m' \<and>
         (groupList m' = groupList m \<or> (\<exists>n. groupList m' = withCount g t n (groupList m)))"
proof (cases "ChildrenW zk (partitionListPath m g)")
  case (Inl err)
  with assms show ?thesis
    by (auto simp: resetPartitionListWatchAndAdd_def Let_def)
next
  case (Inr cs)
  define m2 where
    "m2 = go (GoWatchPartitionList g t (ChildrenWatch (partitionListPath m g)))
            (running_Add 1 (zkRead (ChildrenWatch (partitionListPath m g)) m))"
  have m2: "sameConfig m m2" "spawns (\<lambda>x. goroutineGroup x = Some g) m m2"
       "groupList m2 = groupList m"
    by (simp_all add: m2_def spawns_go)
  show ?thesis
  proof (cases "r \<or> m' = running_Done m2")
    case True
    with assms Inr m2 show ?thesis
      by (auto simp: resetPartitionListWatchAndAdd_def Let_def m2_def [symmetric]
          split: option.splits if_splits sum.splits)
  next
    case False
    with assms Inr obtain pc :: partitionCount and m3 m4 where
      loop: "addPartitions json zk g t (count pc) (word_of_nat (length cs)) m2 = Inr m3" and
      store: "setCount g t (word_of_nat (length cs)) m3 = Inr m4" and
      m': "m' = running_Done m4"
      by (auto simp: resetPartitionListWatchAndAdd_def Let_def m2_def [symmetric]
          split: option.splits if_splits sum.splits)
    from addPartitions_frame [OF loop] have
      m3: "sameConfig m2 m3" "groupList m3 = groupList m2"
          "spawns (\<lambda>x. goroutineGroup x = Some g) m2 m3"
      by simp_all
    from setCount_eq [OF store] m' m2 m3 show ?thesis
      by (auto intro: sameConfig_trans spawns_trans)
  qed
qed

lemma resetPartitionListWatchAndAdd_scan:
  assumes tracked: "groupList m g = Some tlist" "topics tlist t = Some pc"
    and listing: "ChildrenW zk (partitionListPath m g) = Inr cs"
    and dec: "decodable json zk"
  shows "\<exists>m'. resetPartitionListWatchAndAdd json zk g t False m = Inr m' \<and>
           sameConfig m m' \<and>
           groupList m' =
             (if count pc \<le>s word_of_nat (length cs)
              then (groupList m)(g \<mapsto> tlist\<lparr>topics := (topics tlist)
                     (t \<mapsto> pc\<lparr>count := word_of_nat (length cs)\<rparr>)\<rparr>)
              else groupList m) \<and>
           zkReads m' =
             zkReads m @ ChildrenWatch (partitionListPath m g) #
               (if count pc \<le>s word_of_nat (length cs)
                then map (\<lambda>k. DataWatch (offsetPath m g (word_of_int k)))
                       [sint (count pc) .. sint (word_of_nat (length cs) :: 32 word) - 1]
                else [])"
proof -
  define n :: "32 word" where "n = word_of_nat (length cs)"
  define m2 where
    "m2 = go (GoWatchPartitionList g t (ChildrenWatch (partitionListPath m g)))
            (running_Add 1 (zkRead (ChildrenWatch (partitionListPath m g)) m))"
  have m2: "sameConfig m m2" "groupList m2 = groupList m"
       "zkReads m2 = zkReads m @ [ChildrenWatch (partitionListPath m g)]"
    by (simp_all add: m2_def)
  show ?thesis
  proof (cases "count pc \<le>s n")
    case False
    with tracked listing m2 show ?thesis
      by (simp add: resetPartitionListWatchAndAdd_def Let_def m2_def [symmetric] n_def [symmetric])
  next
    case True
    from addPartitions_returns [OF dec] obtain m3 where
      loop: "addPartitions json zk g t (count pc) n m2 = Inr m3"
      by blast
    from addPartitions_frame [OF loop] m2 have
      m3: "sameConfig m m3" "groupList m3 = groupList m"
          "zkReads m3 = zkReads m @ ChildrenWatch (partitionListPath m g) #
             map (\<lambda>k. DataWatch (offsetPath m g (word_of_int k))) [sint (count pc) .. sint n - 1]"
      by (auto intro: sameConfig_trans simp: sameConfig_offsetPath)
    have store: "setCount g t n m3 =
        Inr (m3\<lparr>groupList := (groupList m3)
               (g \<mapsto> tlist\<lparr>topics := (topics tlist)(t \<mapsto> pc\<lparr>count := n\<rparr>)\<rparr>)\<rparr>)"
      using tracked m3 by (simp add: setCount_returns)
    from True tracked listing loop store m2 m3 show ?thesis
      by (simp add: resetPartitionListWatchAndAdd_def Let_def m2_def [symmetric] n_def [symmetric])
  qed
qed

lemma resetPartitionListWatchAndAdd_unlisted:
  assumes "ChildrenW zk (partitionListPath m g) = Inl err"
  shows "\<exists>m'. resetPartitionListWatchAndAdd json zk g t r m = Inr m' \<and>
           sameConfig m m' \<and> groupList m' = groupList m \<and>
           zkReads m' = zkReads m @ [ChildrenWatch (partitionListPath m g)]"
  using assms by (simp add: resetPartitionListWatchAndAdd_def Let_def)

lemma resetPartitionListWatchAndAdd_returns:
  assumes "groupList m g = Some tlist" "topics tlist t = Some pc" "decodable json zk"
  shows "\<exists>m'. resetPartitionListWatchAndAdd json zk g t r m = Inr m'"
proof (cases "ChildrenW zk (partitionListPath m g)")
  case (Inl err)
  then show ?thesis
    using resetPartitionListWatchAndAdd_unlisted by blast
next
  case (Inr cs)
  show ?thesis
  proof (cases r)
    case True
    with Inr show ?thesis
      by (simp add: resetPartitionListWatchAndAdd_def Let_def)
  next
    case False
    with resetPartitionListWatchAndAdd_scan [OF assms(1,2) Inr assms(3)] show ?thesis
      by auto
  qed
qed

lemma groupStep_refl [simp]: "groupStep g m m"
  by (simp add: groupStep_def)

lemma groupStep_trans: "groupStep g m m' \<Longrightarrow> groupStep g m' m'' \<Longrightarrow> groupStep g m m''"
  unfolding groupStep_def
  by (auto intro: sameConfig_trans spawns_trans)

lemma groupStep_effects [simp]:
  "groupStep g m (running_Add k m') = groupStep g m m'"
  "groupStep g m (running_Done m') = groupStep g m m'"
  "groupStep g m (zkRead w m') = groupStep g m m'"
  "groupStep g (running_Add k m) m' = groupStep g m m'"
  by (simp_all add: groupStep_def)

lemma groupStep_go:
  "goroutineGroup x = Some g \<Longrightarrow> groupStep g m m' \<Longrightarrow> groupStep g m (go x m')"
  by (simp add: groupStep_def spawns_go)

lemma topicsKept_refl [simp]: "topicsKept g m m"
  by (simp add: topicsKept_def)

lemma topicsKept_trans: "topicsKept g m m' \<Longrightarrow> topicsKept g m' m'' \<Longrightarrow> topicsKept g m m''"
  unfolding topicsKept_def by fastforce

lemma topicsKept_effects [simp]:
  "topicsKept g m (running_Add k m') = topicsKept g m m'"
  "topicsKept g m (running_Done m') = topicsKept g m m'"
  "topicsKept g m (zkRead w m') = topicsKept g m m'"
  "topicsKept g m (go x m') = topicsKept g m m'"
  "topicsKept g (running_Add k m) m' = topicsKept g m m'"
  by (simp_all add: topicsKept_def)

lemma withCount_other: "g' \<noteq> g \<Longrightarrow> withCount g t n gl g' = gl g'"
  by (simp add: withCount_def split: option.splits)

lemma withCount_None: "(withCount g t n gl g = None) = (gl g = None)"
  by (simp add: withCount_def split: option.splits)

lemma withCount_topics:
  "gl g = Some tlist \<Longrightarrow>
     \<exists>tlist'. withCount g t n gl g = Some tlist' \<and>
       (\<forall>t'. t' \<noteq> t \<longrightarrow> topics tlist' t' = topics tlist t') \<and>
       (topics tlist' t = None) = (topics tlist t = None)"
  by (auto simp: withCount_def split: option.splits)

lemma resetPartitionListWatchAndAdd_steps:
  assumes "resetPartitionListWatchAndAdd json zk g t r m = Inr m'"
  shows "groupStep g m m' \<and> topicStep g t m m'"
proof -
  from resetPartitionListWatchAndAdd_frame [OF assms] have
    cfg: "sameConfig m m'" "spawns (\<lambda>x. goroutineGroup x = Some g) m m'" and
    gl: "groupList m' = groupList m \<or> (\<exists>n. groupList m' = withCount g t n (groupList m))"
    by simp_all
  from gl show ?thesis
  proof
    assume "groupList m' = groupList m"
    with cfg show ?thesis
      by (simp add: groupStep_def topicStep_def)
  next
    assume "\<exists>n. groupList m' = withCount g t n (groupList m)"
    then obtain n where "groupList m' = withCount g t n (groupList m)"
      by blast
    with cfg show ?thesis
      using withCount_topics [of "groupList m" g _ t n]
      by (simp add: groupStep_def topicStep_def withCount_other withCount_None)
  qed
qed

lemma addTopics_steps:
  "addTopics json zk g ts m = Inr m' \<Longrightarrow> groupStep g m m' \<and> topicsKept g m m'"
proof (induction ts arbitrary: m)
  case Nil
  then show ?case by simp
next
  case (Cons t0 rest)
  from Cons.prems obtain tlist where tlist: "groupList m g = Some tlist"
    by (cases "groupList m g") simp_all
  show ?case
  proof (cases "topics tlist t0 = None")
    case False
    with Cons.prems tlist have "addTopics json zk g rest m = Inr m'"
      by simp
    then show ?thesis
      by (rule Cons.IH)
  next
    case True
    define tlist0 where "tlist0 = tlist\<lparr>topics := (topics tlist)(t0 \<mapsto> \<lparr>count = 0\<rparr>)\<rparr>"
    define m0 where "m0 = m\<lparr>groupList := (groupList m)(g \<mapsto> tlist0)\<rparr>"
    have unfolded: "addTopics json zk g (t0 # rest) m =
        (case resetPartitionListWatchAndAdd json zk g t0 False (running_Add 1 m0) of
           Inl p \<Rightarrow> Inl p
         | Inr m1 \<Rightarrow> addTopics json zk g rest m1)"
      using tlist True by (simp add: m0_def tlist0_def)
    with Cons.prems obtain m1 where
      scan: "resetPartitionListWatchAndAdd json zk g t0 False (running_Add 1 m0) = Inr m1" and
      rest: "addTopics json zk g rest m1 = Inr m'"
      by (cases "resetPartitionListWatchAndAdd json zk g t0 False (running_Add 1 m0)") simp_all
    from resetPartitionListWatchAndAdd_steps [OF scan] have
      s1: "groupStep g m0 m1" and t1: "topicStep g t0 (running_Add 1 m0) m1"
      by simp_all
    have gl0: "groupList (running_Add 1 m0) g = Some tlist0"
      by (simp add: m0_def)
    from t1 gl0 obtain tlist1 where
      tlist1: "groupList m1 g = Some tlist1" and
      others: "\<forall>t'. t' \<noteq> t0 \<longrightarrow> topics tlist1 t' = topics tlist0 t'"
      unfolding topicStep_def by blast
    have kept: "\<forall>t pc. topics tlist t = Some pc \<longrightarrow> topics tlist1 t = Some pc"
    proof (intro allI impI)
      fix t pc
      assume entry: "topics tlist t = Some pc"
      with True have neq: "t \<noteq> t0"
        by auto
      with others have "topics tlist1 t = topics tlist0 t"
        by simp
      also from neq have "\<dots> = topics tlist t"
        by (simp add: tlist0_def)
      finally show "topics tlist1 t = Some pc"
        using entry by simp
    qed
    have k1: "topicsKept g m m1"
      unfolding topicsKept_def using tlist tlist1 kept by simp
    have s0: "groupStep g m m0"
      using tlist by (simp add: groupStep_def m0_def)
    from Cons.IH [OF rest] have s2: "groupStep g m1 m'" and k2: "topicsKept g m1 m'"
      by simp_all
    have "groupStep g m m'"
      by (rule groupStep_trans [OF groupStep_trans [OF s0 s1] s2])
    moreover have "topicsKept g m m'"
      by (rule topicsKept_trans [OF k1 k2])
    ultimately show ?thesis
      by simp
  qed
qed

lemma resetTopicListWatchAndAdd_steps:
  assumes "resetTopicListWatchAndAdd json zk g r m = Inr m'"
  shows "groupStep g m m' \<and> topicsKept g m m'"
proof -
  define m1 where "m1 = zkRead (DataWatch (topicListPath m g)) m"
  define m2 where
    "m2 = go (GoWatchTopicList g (DataWatch (topicListPath m g))) (running_Add 1 m1)"
  have base: "groupStep g m m2" "topicsKept g m m2"
    by (simp_all add: m2_def m1_def groupStep_go)
  show ?thesis
  proof (cases "m' = running_Done m1 \<or> m' = running_Done m2")
    case True
    with base show ?thesis
      by (auto simp: m1_def)
  next
    case False
    with assms obtain tr :: Transform and m3 where
      loop: "addTopics json zk g [topic tr] m2 = Inr m3" and m': "m' = running_Done m3"
      by (auto simp: resetTopicListWatchAndAdd_def Let_def m1_def [symmetric] m2_def [symmetric]
          simp del: addTopics.simps
          split: sum.splits prod.splits if_splits option.splits)
    from addTopics_steps [OF loop] base m' show ?thesis
      by (auto intro: groupStep_trans topicsKept_trans)
  qed
qed

lemma moduleFixture_fields:
  "cluster moduleFixture = ''local''"
  "zookeeperPath moduleFixture = ''/consumers''"
  "areWatchesSet moduleFixture = False"
  "running moduleFixture = 0"
  "groupList moduleFixture = Map.empty"
  "groupWhitelist moduleFixture = None"
  "goroutines moduleFixture = []"
  "zkReads moduleFixture = []"
  "StorageChannel moduleFixture = []"
  by (simp_all add: moduleFixture_def)

lemma offsetPath_fixture: "offsetPath moduleFixture ''g1'' 0 = ''/consumers/g1/0''"
  by (simp add: offsetPath_def moduleFixture_def FormatInt_def formatNat.simps digit_def)

lemma topicListPath_fixture: "topicListPath moduleFixture ''g1'' = ''/consumers/g1/0''"
  by (simp add: topicListPath_def moduleFixture_def)




lemma highestSoFar_Max: "highestSoFar c ns = Max (set (c # ns))"
  by (simp only: highestSoFar_def Max.set_eq_fold)











subsection \<open>The group filter\<close>

text \<open>
  C6.  The filter returns false exactly when a whitelist is configured and the name does
  not match it, or a blacklist is configured and the name matches it; with neither
  configured it accepts every name, and the blacklist rejects a name that the whitelist
  accepts.
\<close>

theorem acceptConsumerGroup_iff:
  "(acceptConsumerGroup m g = False \<longleftrightarrow>
      (\<exists>re. groupWhitelist m = Some re \<and> \<not> MatchString re g) \<or>
      (\<exists>re. groupBlacklist m = Some re \<and> MatchString re g)) \<and>
   (groupWhitelist m = None \<and> groupBlacklist m = None \<longrightarrow> acceptConsumerGroup m g) \<and>
   (\<forall>w b. groupWhitelist m = Some w \<and> MatchString w g \<and>
           groupBlacklist m = Some b \<and> MatchString b g \<longrightarrow> \<not> acceptConsumerGroup m g)"
  by (auto simp: acceptConsumerGroup_def split: option.splits)

theorem acceptConsumerGroup_iff_witness:
  "acceptConsumerGroup (moduleFixture\<lparr>groupBlacklist := None\<rparr>) ''g2-internal'' \<and>
   acceptConsumerGroup moduleFixture ''g2-internal'' = False"
proof -
  note unset_rule =
    acceptConsumerGroup_iff [of "moduleFixture\<lparr>groupBlacklist := None\<rparr>" "''g2-internal''",
      THEN conjunct2, THEN conjunct1]
  note reject_rule =
    acceptConsumerGroup_iff [of moduleFixture "''g2-internal''", THEN conjunct1]
  have unset: "groupWhitelist (moduleFixture\<lparr>groupBlacklist := None\<rparr>) = None \<and>
      groupBlacklist (moduleFixture\<lparr>groupBlacklist := None\<rparr>) = None"
    by (simp add: moduleFixture_def)
  have accepted: "acceptConsumerGroup (moduleFixture\<lparr>groupBlacklist := None\<rparr>) ''g2-internal''"
    by (rule mp [OF unset_rule unset])
  have listed: "groupBlacklist moduleFixture = Some (\<lambda>s. drop (length s - 9) s = ''-internal'')"
    by (simp add: moduleFixture_def)
  have matches: "MatchString (\<lambda>s. drop (length s - 9) s = ''-internal'') ''g2-internal''"
    by (simp add: MatchString_def)
  have "\<exists>re. groupBlacklist moduleFixture = Some re \<and> MatchString re ''g2-internal''"
    by (rule exI [of _ "\<lambda>s. drop (length s - 9) s = ''-internal''"]) (rule conjI [OF listed matches])
  then have rejected: "acceptConsumerGroup moduleFixture ''g2-internal'' = False"
    by (rule iffD2 [OF reject_rule, OF disjI2])
  show ?thesis
    by (rule conjI [OF accepted rejected])
qed

subsection \<open>What a watch event starts\<close>



subsection \<open>The request that the offset level forwards\<close>

text \<open>
  C9.  When the offset node is read and its payload decodes, a call that is not
  reset-only hands exactly one request to the storage channel: its type is
  \<open>StorageSetConsumerOffset\<close>, it carries the cluster name of the module, the topic,
  partition and group of the watched node, the offset decoded from the payload, and as
  timestamp the modification time of the node metadata.
\<close>

theorem forwarded_request:
  assumes "GetW zk (offsetPath m g p) = Inr (payload, stat)"
    and "json payload = Inr tr"
  shows "\<exists>m'. resetOffsetWatchAndSend json zk g t p False m = Inr m' \<and>
           StorageChannel m' =
             StorageChannel m @
               [\<lparr>RequestType = StorageSetConsumerOffset, Cluster = cluster m, Topic = t,
                 Partition = p, Group = g, Timestamp = Mtime stat, Offset = offset tr\<rparr>]"
  using assms by (simp add: resetOffsetWatchAndSend_def Let_def effect_defs)

theorem forwarded_request_witness:
  "\<exists>m'. resetOffsetWatchAndSend jsonFixture zkFixture ''g1'' ''t1'' 0 False moduleFixture = Inr m' \<and>
     StorageChannel m' =
       [\<lparr>RequestType = StorageSetConsumerOffset, Cluster = ''local'', Topic = ''t1'',
         Partition = 0, Group = ''g1'', Timestamp = 1500000000000, Offset = 42\<rparr>]"
proof -
  have read: "GetW zkFixture (offsetPath moduleFixture ''g1'' 0) =
      Inr (payloadT1, \<lparr>Mtime = 1500000000000\<rparr>)"
    by (simp add: offsetPath_fixture zkFixture_def)
  have decoded: "jsonFixture payloadT1 = Inr \<lparr>topic = ''t1'', partitionId = 0, offset = 42\<rparr>"
    by (simp add: jsonFixture_def)
  from forwarded_request
      [where zk = zkFixture and m = moduleFixture and json = jsonFixture and t = "''t1''",
        OF read decoded]
  show ?thesis
    by (simp add: moduleFixture_fields)
qed

subsection \<open>A payload that does not decode\<close>

text \<open>
  C1.  The claim is that the watch is re-armed although the payload does not decode.
  On the example tree whose node \<open>/consumers/g1/0\<close> holds a payload that is not JSON,
  the read succeeds at both levels, but the topic-list level returns without starting
  the goroutine that waits for the new watch, and the offset level panics (it calls
  \<open>Error\<close> on the nil error of the read).
\<close>

theorem decode_failure_ends_watch:
  "map_sum id goroutines
     (resetTopicListWatchAndAdd jsonFixture zkUndecodable ''g1'' True moduleFixture) = Inr [] \<and>
   map_sum id zkReads
     (resetTopicListWatchAndAdd jsonFixture zkUndecodable ''g1'' True moduleFixture) =
     Inr [DataWatch ''/consumers/g1/0''] \<and>
   map_sum id goroutines
     (resetOffsetWatchAndSend jsonFixture zkUndecodable ''g1'' ''t1'' 0 True moduleFixture) =
     Inl NilPointerDereference"
proof -
  have read: "GetW zkUndecodable ''/consumers/g1/0'' = Inr (''not json'', \<lparr>Mtime = 1500000000000\<rparr>)"
    by (simp add: zkUndecodable_def)
  have failed: "jsonFixture ''not json'' = Inl ''invalid character''"
    by (simp add: jsonFixture_def payloadT1_def)
  from read failed show ?thesis
    by (simp add: resetTopicListWatchAndAdd_def resetOffsetWatchAndSend_def Let_def
        topicListPath_fixture offsetPath_fixture effect_defs moduleFixture_fields)
qed

subsection \<open>The session monitor\<close>

text \<open>
  C2.  The claim is that one expiry leads to exactly one rebuild.  After one expired
  session the flag \<open>areWatchesSet\<close> stays false, so the connection that follows the
  expiry and the next reconnection of the same session each start the scan of the group
  list: two rebuilds after one expiry.
\<close>

theorem rebuild_twice_after_one_expiry:
  "goroutines
     (connectionStateWatcher
        [sessionEvent StateExpired, sessionEvent StateConnecting, sessionEvent StateConnected,
         sessionEvent StateHasSession, sessionEvent StateDisconnected,
         sessionEvent StateConnecting, sessionEvent StateConnected, sessionEvent StateHasSession]
        (moduleFixture\<lparr>areWatchesSet := True\<rparr>)) =
   [GoResetGroupListWatchAndAdd False, GoResetGroupListWatchAndAdd False]"
  by (simp add: connectionStateWatcher_def connectionStateEvent_def sessionEvent_def
      effect_defs moduleFixture_fields)

subsection \<open>The stored partition count\<close>






end
